theory Spec2Isabelle
  imports Complex_Main
begin

section \<open>The falling-item game engine (src/js/gameEngine.js)\<close>

text \<open>
  A shallow embedding of the class \<open>GameEngine\<close>. Every method is a function from
  the engine state to the new engine state. JavaScript numbers that only ever hold
  integers (score, level, frame counter, seconds, lane indices) are \<open>int\<close>; the pixel
  coordinates and speeds are \<open>real\<close>, so rounding of doubles is not modelled; a number
  that may be \<open>NaN\<close> (a product with \<open>undefined\<close>) is a \<open>real option\<close> with
  \<open>None\<close> for \<open>NaN\<close>. The three calls of \<open>Math.random()\<close> made by one spawn are
  parameters of the tick.
\<close>

subsection \<open>Data\<close>

text \<open>The object literal pushed by \<open>spawnItem\<close>: \<open>{ x, y, lane, type, speed, active }\<close>.\<close>

record item =
  x :: "real option"
  y :: real
  lane :: int
  type :: string
  speed :: real
  active :: bool

text \<open>
  A callback slot holds a function or \<open>null\<close>. The body of a callback is code of the
  page; the model names the callback and records each call of it, with its arguments, in
  the list \<open>notified\<close>. Callbacks are taken not to call back into the engine
  (those of main.js only write to the page).
\<close>

type_synonym callback = nat

datatype notification = ScoreChange int int | GameEnd int int

text \<open>
  The fields of the class, in the order of the constructor, then \<open>timerInterval\<close>
  (created by \<open>start\<close>, \<open>undefined\<close> before), then the part of the browser the engine
  talks to: the identifiers of the intervals that are registered and not cleared, the next
  identifier \<open>setInterval\<close> hands out, and the calls made to the callbacks so far.
\<close>

record engine =
  score :: int
  level :: int
  timeLimit :: int
  timeLeft :: int
  isGameActive :: bool
  basketPos :: int
  items :: "item list"
  lanes :: "real list"
  spawnRate :: int
  frameCount :: int
  onScoreChange :: "callback option"
  onGameEnd :: "callback option"
  timerInterval :: "nat option"
  liveTimers :: "nat set"
  nextTimerId :: nat
  notified :: "notification list"

text \<open>
  A configuration object given to \<open>start\<close>: its \<open>timeLimit\<close> is absent or an
  integer (other values of the property are not modelled). The argument of a call of
  \<open>start\<close> is \<open>undefined\<close> (also when it is left out), \<open>null\<close> or such an object.
\<close>

record config =
  cfg_timeLimit :: "int option"

datatype config_arg = ArgUndefined | ArgNull | ArgObject config

text \<open>The exception a property read on \<open>null\<close> throws.\<close>

datatype js_error = TypeError

text \<open>What \<open>draw\<close> sends to the canvas: two lane separators and one glyph per object.\<close>

datatype glyph = Basket | Apple | Bomb

datatype draw_cmd =
  Line real real real real
| FillText glyph "real option" real

subsection \<open>JavaScript operators\<close>

text \<open>
  \<open>a % b\<close> on integers: the remainder of the division truncated towards zero, with the
  sign of the dividend. (\<open>b = 0\<close> gives \<open>NaN\<close>; the engine's divisor is at least 20.)
\<close>

definition js_rem :: "int \<Rightarrow> int \<Rightarrow> int" where
  "js_rem a b = sgn a * (\<bar>a\<bar> mod \<bar>b\<bar>)"

text \<open>\<open>arr[i]\<close>: the element, or \<open>undefined\<close> (here \<open>None\<close>) outside the array.\<close>

definition js_index :: "'a list \<Rightarrow> int \<Rightarrow> 'a option" where
  "js_index xs i = (if 0 \<le> i \<and> i < int (length xs) then Some (xs ! nat i) else None)"

text \<open>\<open>if (v)\<close> on an interval identifier or \<open>undefined\<close>: \<open>undefined\<close> and 0 are falsy.\<close>

definition truthy_id :: "nat option \<Rightarrow> bool" where
  "truthy_id v = (case v of None \<Rightarrow> False | Some h \<Rightarrow> h \<noteq> 0)"

text \<open>\<open>config.timeLimit || 60\<close>: an absent or zero limit is falsy and gives 60.\<close>

definition timeLimit_or_default :: "config \<Rightarrow> int" where
  "timeLimit_or_default cfg =
     (case cfg_timeLimit cfg of None \<Rightarrow> 60 | Some t \<Rightarrow> if t = 0 then 60 else t)"

text \<open>\<open>clearInterval(v)\<close>: removes the interval; a stale identifier or \<open>undefined\<close> does nothing.\<close>

definition clearInterval :: "nat option \<Rightarrow> engine \<Rightarrow> engine" where
  "clearInterval v s =
     (case v of None \<Rightarrow> s | Some h \<Rightarrow> s\<lparr>liveTimers := liveTimers s - {h}\<rparr>)"

text \<open>\<open>setInterval(f, 1000)\<close>: registers an interval under a fresh non-zero identifier.\<close>

definition setInterval :: "engine \<Rightarrow> nat \<times> engine" where
  "setInterval s =
     (let h = nextTimerId s
      in (h, s\<lparr>liveTimers := insert h (liveTimers s), nextTimerId := Suc h\<rparr>))"

text \<open>The pose labels of \<open>setBasketPose\<close>, as UTF-8 bytes: left, front, right.\<close>

definition label_left :: string where
  "label_left = [CHR 0xEC, CHR 0x99, CHR 0xBC, CHR 0xEC, CHR 0xAA, CHR 0xBD]"

definition label_front :: string where
  "label_front = [CHR 0xEC, CHR 0xA0, CHR 0x95, CHR 0xEB, CHR 0xA9, CHR 0xB4]"

definition label_right :: string where
  "label_right = [CHR 0xEC, CHR 0x98, CHR 0xA4, CHR 0xEB, CHR 0xA5, CHR 0xB8,
                  CHR 0xEC, CHR 0xAA, CHR 0xBD]"

subsection \<open>Constructor and lifecycle\<close>

definition GameEngine :: engine where
  "GameEngine =
     \<lparr>score = 0, level = 1, timeLimit = 60, timeLeft = 60, isGameActive = False,
      basketPos = 1, items = [], lanes = [0.16, 0.5, 0.84], spawnRate = 60,
      frameCount = 0, onScoreChange = None, onGameEnd = None, timerInterval = None,
      liveTimers = {}, nextTimerId = 1, notified = []\<rparr>"

definition setScoreChangeCallback :: "callback option \<Rightarrow> engine \<Rightarrow> engine" where
  "setScoreChangeCallback cb s = s\<lparr>onScoreChange := cb\<rparr>"

definition setGameEndCallback :: "callback option \<Rightarrow> engine \<Rightarrow> engine" where
  "setGameEndCallback cb s = s\<lparr>onGameEnd := cb\<rparr>"

text \<open>The method \<open>start\<close> on a configuration object: it runs to its end.\<close>

definition start :: "config \<Rightarrow> engine \<Rightarrow> engine" where
  "start cfg s =
     (let s1 = s\<lparr>isGameActive := True, score := 0, level := 1,
                 timeLimit := timeLimit_or_default cfg\<rparr>;
          s2 = s1\<lparr>timeLeft := timeLimit s1, items := [], basketPos := 1, frameCount := 0\<rparr>;
          s3 = (if truthy_id (timerInterval s2) then clearInterval (timerInterval s2) s2 else s2);
          (h, s4) = setInterval s3
      in s4\<lparr>timerInterval := Some h\<rparr>)"

text \<open>
  A call \<open>start(config = {})\<close>. The default parameter replaces only \<open>undefined\<close>, by
  the empty object. On \<open>null\<close> the read \<open>config.timeLimit\<close> of line 32 throws, after
  the three assignments of lines 29 to 31 and before anything else: the exception leaves
  the method with the engine as those assignments made it. The result is the exception,
  if any, and the engine after the call.
\<close>

definition start_call :: "config_arg \<Rightarrow> engine \<Rightarrow> js_error option \<times> engine" where
  "start_call a s =
     (case a of
        ArgUndefined \<Rightarrow> (None, start \<lparr>cfg_timeLimit = None\<rparr> s)
      | ArgObject cfg \<Rightarrow> (None, start cfg s)
      | ArgNull \<Rightarrow> (Some TypeError, s\<lparr>isGameActive := True, score := 0, level := 1\<rparr>))"

definition stop :: "engine \<Rightarrow> engine" where
  "stop s =
     (let s1 = s\<lparr>isGameActive := False\<rparr>;
          s2 = clearInterval (timerInterval s1) s1
      in if onGameEnd s2 \<noteq> None
         then s2\<lparr>notified := notified s2 @ [GameEnd (score s2) (level s2)]\<rparr>
         else s2)"

text \<open>The arrow function given to \<open>setInterval\<close> in \<open>start\<close>, run once a second.\<close>

definition timerCallback :: "engine \<Rightarrow> engine" where
  "timerCallback s =
     (if isGameActive s
      then (let s1 = s\<lparr>timeLeft := timeLeft s - 1\<rparr>
            in if timeLeft s1 \<le> 0 then stop s1 else s1)
      else s)"

subsection \<open>Spawning, moving and catching\<close>

definition spawnItem :: "real \<Rightarrow> real \<times> real \<times> real \<Rightarrow> engine \<Rightarrow> engine" where
  "spawnItem canvasWidth rnd s =
     (case rnd of (r1, r2, r3) \<Rightarrow>
        let laneIndex = \<lfloor>r1 * 3\<rfloor>;
            x0 = map_option (\<lambda>c. c * canvasWidth) (js_index (lanes s) laneIndex);
            bombChance = 0.2 + real_of_int (level s) * 0.05;
            type0 = (if r2 < bombChance then ''bomb'' else ''apple'');
            speed0 = 2 + real_of_int (level s) * 0.5 + r3 * 1
        in s\<lparr>items := items s @
               [\<lparr>x = x0, y = - 30, lane = laneIndex, type = type0, speed = speed0,
                 active = True\<rparr>]\<rparr>)"

definition handleCollision :: "item \<Rightarrow> engine \<Rightarrow> item \<times> engine" where
  "handleCollision it s =
     (let it1 = it\<lparr>active := False\<rparr>;
          s1 = (if type it1 = ''apple'' then s\<lparr>score := score s + 10\<rparr>
                else if type it1 = ''bomb'' then s\<lparr>score := score s - 50\<rparr>
                else s);
          newLevel = 1 + score s1 div 300;
          s2 = (if newLevel \<noteq> level s1 then s1\<lparr>level := newLevel\<rparr> else s1)
      in (it1,
          if onScoreChange s2 \<noteq> None
          then s2\<lparr>notified := notified s2 @ [ScoreChange (score s2) (level s2)]\<rparr>
          else s2))"

text \<open>The body of the \<open>for\<close> loop of \<open>updateItems\<close>, for one item.\<close>

definition updateItem :: "real \<Rightarrow> item \<Rightarrow> engine \<Rightarrow> item \<times> engine" where
  "updateItem canvasHeight it s =
     (if \<not> active it then (it, s)
      else
        let it1 = it\<lparr>y := y it + speed it\<rparr>;
            basketY = canvasHeight * 0.85;
            (it2, s2) =
              (if y it1 \<ge> basketY - 20 \<and> y it1 \<le> basketY + 20
               then (if lane it1 = basketPos s then handleCollision it1 s else (it1, s))
               else (it1, s))
        in (if y it2 > canvasHeight then it2\<lparr>active := False\<rparr> else it2, s2))"

fun updateItems_loop :: "real \<Rightarrow> item list \<Rightarrow> engine \<Rightarrow> item list \<times> engine" where
  "updateItems_loop canvasHeight [] s = ([], s)"
| "updateItems_loop canvasHeight (it # rest) s =
     (let (it', s1) = updateItem canvasHeight it s;
          (rest', s2) = updateItems_loop canvasHeight rest s1
      in (it' # rest', s2))"

definition updateItems :: "real \<Rightarrow> real \<Rightarrow> engine \<Rightarrow> engine" where
  "updateItems canvasHeight canvasWidth s =
     (let (its, s1) = updateItems_loop canvasHeight (items s) s
      in s1\<lparr>items := filter active its\<rparr>)"

subsection \<open>Drawing and the frame\<close>

definition draw :: "engine \<Rightarrow> real \<Rightarrow> real \<Rightarrow> draw_cmd list" where
  "draw s canvasWidth canvasHeight =
     (let basketY = canvasHeight * 0.85;
          basketX = map_option (\<lambda>c. c * canvasWidth) (js_index (lanes s) (basketPos s))
      in [Line (canvasWidth * 0.33) 0 (canvasWidth * 0.33) canvasHeight,
          Line (canvasWidth * 0.66) 0 (canvasWidth * 0.66) canvasHeight,
          FillText Basket basketX basketY] @
         map (\<lambda>it. FillText (if type it = ''apple'' then Apple else Bomb) (x it) (y it))
             (items s))"

definition currentSpawnRate :: "engine \<Rightarrow> int" where
  "currentSpawnRate s = max 20 (spawnRate s - level s * 5)"

text \<open>
  \<open>updateAndDraw\<close> returns the new state and what it drew; an inactive engine returns
  at once, with nothing drawn.
\<close>

definition updateAndDraw ::
  "real \<Rightarrow> real \<Rightarrow> real \<times> real \<times> real \<Rightarrow> engine \<Rightarrow> engine \<times> draw_cmd list" where
  "updateAndDraw canvasWidth canvasHeight rnd s =
     (if \<not> isGameActive s then (s, [])
      else
        let s1 = s\<lparr>frameCount := frameCount s + 1\<rparr>;
            s2 = (if js_rem (frameCount s1) (currentSpawnRate s1) = 0
                  then spawnItem canvasWidth rnd s1 else s1);
            s3 = updateItems canvasHeight canvasWidth s2
        in (s3, draw s3 canvasWidth canvasHeight))"

definition setBasketPose :: "string \<Rightarrow> engine \<Rightarrow> engine" where
  "setBasketPose poseLabel s =
     (if poseLabel = label_left then s\<lparr>basketPos := 0\<rparr>
      else if poseLabel = label_front then s\<lparr>basketPos := 1\<rparr>
      else if poseLabel = label_right then s\<lparr>basketPos := 2\<rparr>
      else s)"

subsection \<open>The page's guarded stop (src/unnamed/part_000, function \<open>stop\<close>)\<close>

text \<open>
  The page calls \<open>gameEngine.stop()\<close> only under \<open>gameEngine.isGameActive\<close>.
\<close>

definition page_stop :: "engine \<Rightarrow> engine" where
  "page_stop s = (if isGameActive s then stop s else s)"

subsection \<open>Sessions\<close>

text \<open>
  What can happen to an engine: a call of one of its methods, or the browser running the
  callback of an interval that is still registered. A session is a list of such events,
  applied from left to right to the freshly constructed engine. \<open>Start\<close> is a call of
  \<open>start\<close> with a configuration object (the empty one for \<open>undefined\<close>), \<open>StartNull\<close>
  the call \<open>start(null)\<close>, after which the engine is as the exception left it.
\<close>

datatype event =
  Start config
| StartNull
| Stop
| PageStop
| TimerFires nat
| Frame real real "real \<times> real \<times> real"
| SetBasketPose string
| SetScoreChangeCallback "callback option"
| SetGameEndCallback "callback option"

fun step :: "event \<Rightarrow> engine \<Rightarrow> engine" where
  "step (Start cfg) s = start cfg s"
| "step StartNull s = snd (start_call ArgNull s)"
| "step Stop s = stop s"
| "step PageStop s = page_stop s"
| "step (TimerFires h) s = (if h \<in> liveTimers s then timerCallback s else s)"
| "step (Frame canvasWidth canvasHeight rnd) s = fst (updateAndDraw canvasWidth canvasHeight rnd s)"
| "step (SetBasketPose poseLabel) s = setBasketPose poseLabel s"
| "step (SetScoreChangeCallback cb) s = setScoreChangeCallback cb s"
| "step (SetGameEndCallback cb) s = setGameEndCallback cb s"

fun run :: "event list \<Rightarrow> engine \<Rightarrow> engine" where
  "run [] s = s"
| "run (e # es) s = run es (step e s)"

subsection \<open>Vocabulary of the properties\<close>

text \<open>
  The catch test of the loop body (lines 109 to 118): the item is live, its position after
  the move lies in the band around 85 percent of the canvas height, and it is in the
  basket's lane.
\<close>

definition inCatchBand :: "real \<Rightarrow> real \<Rightarrow> bool" where
  "inCatchBand canvasHeight v \<longleftrightarrow>
     canvasHeight * 0.85 - 20 \<le> v \<and> v \<le> canvasHeight * 0.85 + 20"

definition caught :: "real \<Rightarrow> int \<Rightarrow> item \<Rightarrow> bool" where
  "caught canvasHeight bp it \<longleftrightarrow>
     active it \<and> inCatchBand canvasHeight (y it + speed it) \<and> lane it = bp"

text \<open>The score change that \<open>handleCollision\<close> applies for an item type.\<close>

definition scoreDelta :: "string \<Rightarrow> int" where
  "scoreDelta t = (if t = ''apple'' then 10 else if t = ''bomb'' then - 50 else 0)"

text \<open>The calls of \<open>onGameEnd\<close> among the recorded notifications.\<close>

fun isGameEnd :: "notification \<Rightarrow> bool" where
  "isGameEnd (GameEnd _ _) = True"
| "isGameEnd (ScoreChange _ _) = False"

definition gameEnds :: "engine \<Rightarrow> nat" where
  "gameEnds s = length (filter isGameEnd (notified s))"

text \<open>
  The events that leave a session as it is: every event but a new \<open>start\<close>, a direct
  call of \<open>stop\<close> and a change of the game-end callback.
\<close>

fun withinSession :: "event \<Rightarrow> bool" where
  "withinSession (Start _) = False"
| "withinSession StartNull = False"
| "withinSession Stop = False"
| "withinSession (SetGameEndCallback _) = False"
| "withinSession _ = True"

text \<open>An item after the move of one frame, and the test that it stays in the list.\<close>

definition advance :: "item \<Rightarrow> item" where
  "advance it = it\<lparr>y := y it + speed it\<rparr>"

definition survives :: "real \<Rightarrow> int \<Rightarrow> item \<Rightarrow> bool" where
  "survives canvasHeight bp it \<longleftrightarrow>
     active it \<and> \<not> caught canvasHeight bp it \<and> y it + speed it \<le> canvasHeight"

subsection \<open>Concrete inputs\<close>

text \<open>
  An engine just started on a 400 by 400 canvas with both callbacks registered, and four
  items in front of the basket in lane 1: an apple and a bomb about to enter the band in
  the basket's lane, an item about to leave the canvas in another lane, and an item inside
  the band in another lane.
\<close>

definition ex_engine :: engine where
  "ex_engine =
     start \<lparr>cfg_timeLimit = Some 60\<rparr>
       (setGameEndCallback (Some 1) (setScoreChangeCallback (Some 0) GameEngine))"

definition ex_apple :: item where
  "ex_apple = \<lparr>x = Some 200, y = 337.5, lane = 1, type = ''apple'', speed = 2.5, active = True\<rparr>"

definition ex_bomb :: item where
  "ex_bomb = \<lparr>x = Some 200, y = 337.5, lane = 1, type = ''bomb'', speed = 2.5, active = True\<rparr>"

definition ex_leaving :: item where
  "ex_leaving = \<lparr>x = Some 64, y = 399, lane = 0, type = ''apple'', speed = 3, active = True\<rparr>"

definition ex_passing :: item where
  "ex_passing = \<lparr>x = Some 64, y = 330, lane = 0, type = ''bomb'', speed = 3, active = True\<rparr>"

section \<open>Facts about the methods\<close>

subsection \<open>One collision, one item\<close>

lemma handleCollision_eq:
  "handleCollision it s =
     (it\<lparr>active := False\<rparr>,
      s\<lparr>score := score s + scoreDelta (type it),
        level := 1 + (score s + scoreDelta (type it)) div 300,
        notified := notified s @
          (if onScoreChange s \<noteq> None
           then [ScoreChange (score s + scoreDelta (type it))
                   (1 + (score s + scoreDelta (type it)) div 300)]
           else [])\<rparr>)"
proof (rule prod_eqI)
  show "fst (handleCollision it s) = fst (it\<lparr>active := False\<rparr>,
      s\<lparr>score := score s + scoreDelta (type it),
        level := 1 + (score s + scoreDelta (type it)) div 300,
        notified := notified s @
          (if onScoreChange s \<noteq> None
           then [ScoreChange (score s + scoreDelta (type it))
                   (1 + (score s + scoreDelta (type it)) div 300)]
           else [])\<rparr>)"
    by (simp add: handleCollision_def Let_def)
  show "snd (handleCollision it s) = snd (it\<lparr>active := False\<rparr>,
      s\<lparr>score := score s + scoreDelta (type it),
        level := 1 + (score s + scoreDelta (type it)) div 300,
        notified := notified s @
          (if onScoreChange s \<noteq> None
           then [ScoreChange (score s + scoreDelta (type it))
                   (1 + (score s + scoreDelta (type it)) div 300)]
           else [])\<rparr>)"
    by (rule engine.equality) (simp_all add: handleCollision_def Let_def scoreDelta_def)
qed

lemma handleCollision_fields:
  "score (snd (handleCollision it s)) = score s + scoreDelta (type it)"
  "level (snd (handleCollision it s)) = 1 + (score s + scoreDelta (type it)) div 300"
  "basketPos (snd (handleCollision it s)) = basketPos s"
  "onScoreChange (snd (handleCollision it s)) = onScoreChange s"
  "fst (handleCollision it s) = it\<lparr>active := False\<rparr>"
  "notified (snd (handleCollision it s)) = notified s @
     (if onScoreChange s \<noteq> None
      then [ScoreChange (score s + scoreDelta (type it)) (1 + (score s + scoreDelta (type it)) div 300)]
      else [])"
  by (simp_all add: handleCollision_eq)

lemma updateItem_caught:
  assumes "caught h (basketPos s) it"
  shows "updateItem h it s =
           (it\<lparr>y := y it + speed it, active := False\<rparr>,
            snd (handleCollision (it\<lparr>y := y it + speed it\<rparr>) s))"
  using assms
  by (simp add: updateItem_def caught_def inCatchBand_def Let_def handleCollision_eq)

lemma updateItem_not_caught:
  assumes "active it" "\<not> caught h (basketPos s) it"
  shows "updateItem h it s =
           (it\<lparr>y := y it + speed it, active := (y it + speed it \<le> h)\<rparr>, s)"
  using assms
  by (auto simp add: updateItem_def caught_def inCatchBand_def Let_def split: prod.splits)

lemma updateItem_inactive: "\<not> active it \<Longrightarrow> updateItem h it s = (it, s)"
  by (simp add: updateItem_def)

lemma updateItem_fst:
  "fst (updateItem h it s) =
     (if \<not> active it then it
      else it\<lparr>y := y it + speed it,
              active := (\<not> caught h (basketPos s) it \<and> y it + speed it \<le> h)\<rparr>)"
  by (cases "active it"; cases "caught h (basketPos s) it")
     (simp_all add: updateItem_caught updateItem_not_caught updateItem_inactive caught_def)

lemma updateItem_snd:
  "snd (updateItem h it s) =
     (if caught h (basketPos s) it then snd (handleCollision (it\<lparr>y := y it + speed it\<rparr>) s) else s)"
proof (cases "caught h (basketPos s) it")
  case True
  then show ?thesis by (simp add: updateItem_caught)
next
  case False
  then show ?thesis
    by (cases "active it") (simp_all add: updateItem_not_caught updateItem_inactive)
qed

lemma updateItem_keeps:
  "basketPos (snd (updateItem h it s)) = basketPos s"
  "onScoreChange (snd (updateItem h it s)) = onScoreChange s"
  by (simp_all add: updateItem_snd handleCollision_fields)

subsection \<open>The loop over the items\<close>

lemma loop_keeps:
  "basketPos (snd (updateItems_loop h its s)) = basketPos s \<and>
   onScoreChange (snd (updateItems_loop h its s)) = onScoreChange s"
  by (induction its arbitrary: s) (simp_all add: split_beta updateItem_keeps)

lemma loop_fst:
  "fst (updateItems_loop h its s) = map (\<lambda>it. fst (updateItem h it s)) its"
proof (induction its arbitrary: s)
  case Nil
  show ?case by simp
next
  case (Cons it rest)
  have "fst (updateItems_loop h rest (snd (updateItem h it s)))
          = map (\<lambda>i. fst (updateItem h i (snd (updateItem h it s)))) rest"
    by (rule Cons.IH)
  also have "\<dots> = map (\<lambda>i. fst (updateItem h i s)) rest"
    by (simp add: updateItem_fst updateItem_keeps)
  finally show ?case by (simp add: split_beta)
qed

lemma loop_score:
  "score (snd (updateItems_loop h its s)) =
     score s + sum_list (map (\<lambda>it. scoreDelta (type it)) (filter (caught h (basketPos s)) its))"
proof (induction its arbitrary: s)
  case Nil
  show ?case by simp
next
  case (Cons it rest)
  show ?case
    by (simp add: split_beta Cons.IH updateItem_keeps updateItem_snd handleCollision_fields)
qed

lemma loop_notified_length:
  "length (notified (snd (updateItems_loop h its s))) =
     length (notified s) +
     (if onScoreChange s \<noteq> None then length (filter (caught h (basketPos s)) its) else 0)"
proof (induction its arbitrary: s)
  case Nil
  show ?case by simp
next
  case (Cons it rest)
  show ?case
    by (auto simp add: split_beta Cons.IH updateItem_keeps updateItem_snd handleCollision_fields)
qed

lemma updateItems_items:
  "items (updateItems h w s) = filter active (map (\<lambda>it. fst (updateItem h it s)) (items s))"
  by (simp add: updateItems_def split_beta loop_fst)

lemma updateItems_score:
  "score (updateItems h w s) =
     score s + sum_list (map (\<lambda>it. scoreDelta (type it)) (filter (caught h (basketPos s)) (items s)))"
  by (simp add: updateItems_def split_beta loop_score)

lemma updateItems_notified_length:
  "length (notified (updateItems h w s)) =
     length (notified s) +
     (if onScoreChange s \<noteq> None then length (filter (caught h (basketPos s)) (items s)) else 0)"
  by (simp add: updateItems_def split_beta loop_notified_length)

lemma updateItems_survivors:
  "items (updateItems h w s) = map advance (filter (survives h (basketPos s)) (items s))"
proof -
  have "filter active (map (\<lambda>it. fst (updateItem h it s)) its)
          = map advance (filter (survives h (basketPos s)) its)" for its
    by (induction its) (auto simp add: updateItem_fst survives_def advance_def)
  then show ?thesis by (simp add: updateItems_items)
qed

lemma loop_append:
  "updateItems_loop h (xs @ ys) s =
     (fst (updateItems_loop h xs s) @ fst (updateItems_loop h ys (snd (updateItems_loop h xs s))),
      snd (updateItems_loop h ys (snd (updateItems_loop h xs s))))"
  by (induction xs arbitrary: s) (simp_all add: split_beta)

lemma loop_snd_frame:
  "snd (updateItems_loop h its s) =
     s\<lparr>score := score (snd (updateItems_loop h its s)),
       level := level (snd (updateItems_loop h its s)),
       notified := notified (snd (updateItems_loop h its s))\<rparr>"
proof (induction its arbitrary: s)
  case Nil
  show ?case by simp
next
  case (Cons it rest)
  have one: "snd (updateItem h it s) =
     s\<lparr>score := score (snd (updateItem h it s)),
       level := level (snd (updateItem h it s)),
       notified := notified (snd (updateItem h it s))\<rparr>"
    by (simp add: updateItem_snd handleCollision_eq)
  define s1 where "s1 = snd (updateItem h it s)"
  define s2 where "s2 = snd (updateItems_loop h rest s1)"
  have "s2 = s1\<lparr>score := score s2, level := level s2, notified := notified s2\<rparr>"
    unfolding s2_def by (rule Cons.IH)
  also have "s1 = s\<lparr>score := score s1, level := level s1, notified := notified s1\<rparr>"
    unfolding s1_def by (rule one)
  finally have "s2 = s\<lparr>score := score s2, level := level s2, notified := notified s2\<rparr>"
    by simp
  moreover have "snd (updateItems_loop h (it # rest) s) = s2"
    by (simp add: split_beta s1_def s2_def)
  ultimately show ?case by simp
qed

lemma sum_scoreDelta:
  "sum_list (map (\<lambda>it. scoreDelta (type it)) its) =
     10 * int (length (filter (\<lambda>it. type it = ''apple'') its))
     - 50 * int (length (filter (\<lambda>it. type it = ''bomb'') its))"
  by (induction its) (auto simp add: scoreDelta_def)

lemma updateItem_items_irrelevant:
  "updateItem h it (s\<lparr>items := a\<rparr>) =
     (fst (updateItem h it s), (snd (updateItem h it s))\<lparr>items := a\<rparr>)"
proof (cases "caught h (basketPos s) it")
  case True
  then have "caught h (basketPos (s\<lparr>items := a\<rparr>)) it" by simp
  then show ?thesis
    using True by (simp add: updateItem_caught handleCollision_eq)
next
  case False
  then have n: "\<not> caught h (basketPos (s\<lparr>items := a\<rparr>)) it" by simp
  show ?thesis
  proof (cases "active it")
    case True
    then show ?thesis using False n by (simp add: updateItem_not_caught)
  next
    case False
    then show ?thesis by (simp add: updateItem_inactive)
  qed
qed

lemma loop_items_irrelevant:
  "updateItems_loop h its (s\<lparr>items := a\<rparr>) =
     (fst (updateItems_loop h its s), (snd (updateItems_loop h its s))\<lparr>items := a\<rparr>)"
  by (induction its arbitrary: s) (simp_all add: split_beta updateItem_items_irrelevant)

lemma updateItems_of_list:
  "updateItems h w (s\<lparr>items := its\<rparr>) =
     (snd (updateItems_loop h its s))\<lparr>items := filter active (fst (updateItems_loop h its s))\<rparr>"
  by (simp add: updateItems_def loop_items_irrelevant)

lemma updateItems_skip_missed:
  assumes "active it" "h < y it + speed it" "\<not> caught h (basketPos s) it"
  shows "updateItems h w (s\<lparr>items := pre @ it # post\<rparr>) = updateItems h w (s\<lparr>items := pre @ post\<rparr>)"
proof -
  define s1 where "s1 = snd (updateItems_loop h pre s)"
  have bp: "basketPos s1 = basketPos s" by (simp add: s1_def loop_keeps)
  have one: "updateItem h it s1 = (it\<lparr>y := y it + speed it, active := False\<rparr>, s1)"
    using assms by (simp add: updateItem_not_caught bp)
  have "updateItems_loop h (pre @ it # post) s =
          (fst (updateItems_loop h pre s) @ it\<lparr>y := y it + speed it, active := False\<rparr>
             # fst (updateItems_loop h post s1),
           snd (updateItems_loop h post s1))"
    by (simp add: loop_append [of h pre "it # post"] split_beta one s1_def [symmetric])
  moreover have "updateItems_loop h (pre @ post) s =
          (fst (updateItems_loop h pre s) @ fst (updateItems_loop h post s1),
           snd (updateItems_loop h post s1))"
    by (simp add: loop_append s1_def)
  ultimately show ?thesis by (simp add: updateItems_of_list)
qed


lemma loop_level:
  "level s = 1 + score s div 300 \<Longrightarrow>
   level (snd (updateItems_loop h its s)) = 1 + score (snd (updateItems_loop h its s)) div 300"
proof (induction its arbitrary: s)
  case Nil
  then show ?case by simp
next
  case (Cons it rest)
  have "level (snd (updateItem h it s)) = 1 + score (snd (updateItem h it s)) div 300"
    using Cons.prems by (simp add: updateItem_snd handleCollision_fields)
  then show ?case by (simp add: split_beta Cons.IH)
qed

lemma loop_gameEnds:
  "filter isGameEnd (notified (snd (updateItems_loop h its s))) = filter isGameEnd (notified s)"
proof (induction its arbitrary: s)
  case Nil
  show ?case by simp
next
  case (Cons it rest)
  have "filter isGameEnd (notified (snd (updateItem h it s))) = filter isGameEnd (notified s)"
    by (simp add: updateItem_snd handleCollision_fields)
  then show ?case by (simp add: split_beta Cons.IH)
qed

lemma updateItems_frame:
  "updateItems h w s =
     s\<lparr>score := score (updateItems h w s), level := level (updateItems h w s),
       notified := notified (updateItems h w s), items := items (updateItems h w s)\<rparr>"
proof -
  define s1 where "s1 = snd (updateItems_loop h (items s) s)"
  have "s1 = s\<lparr>score := score s1, level := level s1, notified := notified s1\<rparr>"
    unfolding s1_def by (rule loop_snd_frame)
  moreover have "updateItems h w s = s1\<lparr>items := items (updateItems h w s)\<rparr>"
    by (simp add: updateItems_def split_beta s1_def)
  ultimately have "updateItems h w s =
     s\<lparr>score := score s1, level := level s1, notified := notified s1,
       items := items (updateItems h w s)\<rparr>"
    by simp
  moreover have "score (updateItems h w s) = score s1" "level (updateItems h w s) = level s1"
     "notified (updateItems h w s) = notified s1"
    by (simp_all add: updateItems_def split_beta s1_def)
  ultimately show ?thesis by simp
qed

lemma updateItems_keeps:
  "basketPos (updateItems h w s) = basketPos s"
  "lanes (updateItems h w s) = lanes s"
  "spawnRate (updateItems h w s) = spawnRate s"
  "frameCount (updateItems h w s) = frameCount s"
  "isGameActive (updateItems h w s) = isGameActive s"
  "onGameEnd (updateItems h w s) = onGameEnd s"
  "onScoreChange (updateItems h w s) = onScoreChange s"
  "timerInterval (updateItems h w s) = timerInterval s"
  "liveTimers (updateItems h w s) = liveTimers s"
  "timeLeft (updateItems h w s) = timeLeft s"
  "timeLimit (updateItems h w s) = timeLimit s"
  "nextTimerId (updateItems h w s) = nextTimerId s"
  by (subst updateItems_frame, simp)+

lemma updateItems_level:
  "level s = 1 + score s div 300 \<Longrightarrow>
   level (updateItems h w s) = 1 + score (updateItems h w s) div 300"
  by (simp add: updateItems_def split_beta loop_level)

lemma updateItems_gameEnds: "gameEnds (updateItems h w s) = gameEnds s"
  by (simp add: gameEnds_def updateItems_def split_beta loop_gameEnds)

lemma spawnItem_frame:
  "spawnItem w rnd s = s\<lparr>items := items (spawnItem w rnd s)\<rparr>"
  by (simp add: spawnItem_def split_beta Let_def)

lemma spawnItem_items:
  "\<exists>it. items (spawnItem w rnd s) = items s @ [it] \<and> y it = - 30 \<and> active it"
  by (simp add: spawnItem_def split_beta Let_def)

subsection \<open>One frame\<close>

text \<open>The state a frame passes to \<open>updateItems\<close>: the counter advanced, an item perhaps spawned.\<close>

lemma updateAndDraw_active:
  "isGameActive s \<Longrightarrow>
   fst (updateAndDraw w h rnd s) =
     updateItems h w
       (if js_rem (frameCount s + 1) (currentSpawnRate s) = 0
        then spawnItem w rnd (s\<lparr>frameCount := frameCount s + 1\<rparr>)
        else s\<lparr>frameCount := frameCount s + 1\<rparr>)"
  by (simp add: updateAndDraw_def Let_def currentSpawnRate_def)

lemma updateAndDraw_inactive: "\<not> isGameActive s \<Longrightarrow> updateAndDraw w h rnd s = (s, [])"
  by (simp add: updateAndDraw_def)

subsection \<open>The concrete inputs\<close>

lemma ex_engine_eq:
  "ex_engine = \<lparr>score = 0, level = 1, timeLimit = 60, timeLeft = 60, isGameActive = True,
      basketPos = 1, items = [], lanes = [0.16, 0.5, 0.84], spawnRate = 60,
      frameCount = 0, onScoreChange = Some 0, onGameEnd = Some 1, timerInterval = Some 1,
      liveTimers = {1}, nextTimerId = 2, notified = []\<rparr>"
  by (simp add: ex_engine_def start_def GameEngine_def setGameEndCallback_def
      setScoreChangeCallback_def timeLimit_or_default_def truthy_id_def setInterval_def Let_def)

lemma ex_caught:
  "caught 400 1 ex_apple" "caught 400 1 ex_bomb" "\<not> caught 400 1 ex_leaving" "\<not> caught 400 1 ex_passing"
  by (simp_all add: caught_def inCatchBand_def ex_apple_def ex_bomb_def ex_leaving_def ex_passing_def)


subsection \<open>Lifecycle methods, field by field\<close>

lemma GameEngine_fields:
  "score GameEngine = 0" "level GameEngine = 1" "basketPos GameEngine = 1"
  "lanes GameEngine = [0.16, 0.5, 0.84]" "spawnRate GameEngine = 60"
  "isGameActive GameEngine = False" "notified GameEngine = []"
  by (simp_all add: GameEngine_def)

lemma stop_fields:
  "isGameActive (stop s) = False"
  "score (stop s) = score s" "level (stop s) = level s"
  "basketPos (stop s) = basketPos s" "lanes (stop s) = lanes s" "spawnRate (stop s) = spawnRate s"
  "onGameEnd (stop s) = onGameEnd s" "timerInterval (stop s) = timerInterval s"
  "items (stop s) = items s" "frameCount (stop s) = frameCount s" "timeLeft (stop s) = timeLeft s"
  "liveTimers (stop s) = (case timerInterval s of None \<Rightarrow> liveTimers s | Some h \<Rightarrow> liveTimers s - {h})"
  "notified (stop s) =
     notified s @ (if onGameEnd s \<noteq> None then [GameEnd (score s) (level s)] else [])"
  by (simp_all add: stop_def clearInterval_def Let_def split: option.splits)

lemma start_null_fields:
  "isGameActive (snd (start_call ArgNull s)) = True"
  "score (snd (start_call ArgNull s)) = 0" "level (snd (start_call ArgNull s)) = 1"
  "basketPos (snd (start_call ArgNull s)) = basketPos s"
  "lanes (snd (start_call ArgNull s)) = lanes s"
  "spawnRate (snd (start_call ArgNull s)) = spawnRate s"
  "liveTimers (snd (start_call ArgNull s)) = liveTimers s"
  "timeLeft (snd (start_call ArgNull s)) = timeLeft s"
  "notified (snd (start_call ArgNull s)) = notified s"
  by (simp_all add: start_call_def)

lemma start_fields:
  "isGameActive (start cfg s) = True"
  "score (start cfg s) = 0" "level (start cfg s) = 1"
  "basketPos (start cfg s) = 1" "lanes (start cfg s) = lanes s" "spawnRate (start cfg s) = spawnRate s"
  "onGameEnd (start cfg s) = onGameEnd s" "notified (start cfg s) = notified s"
  "items (start cfg s) = []" "frameCount (start cfg s) = 0"
  "timeLimit (start cfg s) = timeLimit_or_default cfg"
  "timeLeft (start cfg s) = timeLimit_or_default cfg"
  "timerInterval (start cfg s) = Some (nextTimerId s)"
  by (simp_all add: start_def setInterval_def clearInterval_def Let_def split_beta split: option.splits)

lemma timerCallback_fields:
  "score (timerCallback s) = score s" "level (timerCallback s) = level s"
  "basketPos (timerCallback s) = basketPos s" "lanes (timerCallback s) = lanes s"
  "spawnRate (timerCallback s) = spawnRate s" "onGameEnd (timerCallback s) = onGameEnd s"
  "isGameActive (timerCallback s) = (isGameActive s \<and> 1 < timeLeft s)"
  "notified (timerCallback s) =
     notified s @ (if isGameActive s \<and> timeLeft s \<le> 1 \<and> onGameEnd s \<noteq> None
                   then [GameEnd (score s) (level s)] else [])"
  by (auto simp add: timerCallback_def Let_def stop_fields)

lemma setBasketPose_fields:
  "score (setBasketPose l s) = score s" "level (setBasketPose l s) = level s"
  "lanes (setBasketPose l s) = lanes s" "spawnRate (setBasketPose l s) = spawnRate s"
  "onGameEnd (setBasketPose l s) = onGameEnd s" "isGameActive (setBasketPose l s) = isGameActive s"
  "notified (setBasketPose l s) = notified s"
  "basketPos (setBasketPose l s) =
     (if l = label_left then 0 else if l = label_front then 1 else if l = label_right then 2
      else basketPos s)"
  by (simp_all add: setBasketPose_def)

lemma frame_fields:
  "basketPos (fst (updateAndDraw w h rnd s)) = basketPos s"
  "lanes (fst (updateAndDraw w h rnd s)) = lanes s"
  "spawnRate (fst (updateAndDraw w h rnd s)) = spawnRate s"
  "isGameActive (fst (updateAndDraw w h rnd s)) = isGameActive s"
  "onGameEnd (fst (updateAndDraw w h rnd s)) = onGameEnd s"
proof -
  have sp: "basketPos (spawnItem w rnd t) = basketPos t" "lanes (spawnItem w rnd t) = lanes t"
    "spawnRate (spawnItem w rnd t) = spawnRate t" "isGameActive (spawnItem w rnd t) = isGameActive t"
    "onGameEnd (spawnItem w rnd t) = onGameEnd t" for t
    by (subst spawnItem_frame, simp)+
  show "basketPos (fst (updateAndDraw w h rnd s)) = basketPos s"
    "lanes (fst (updateAndDraw w h rnd s)) = lanes s"
    "spawnRate (fst (updateAndDraw w h rnd s)) = spawnRate s"
    "isGameActive (fst (updateAndDraw w h rnd s)) = isGameActive s"
    "onGameEnd (fst (updateAndDraw w h rnd s)) = onGameEnd s"
    by (cases "isGameActive s"; simp add: updateAndDraw_active updateAndDraw_inactive updateItems_keeps sp)+
qed

lemma frame_level:
  assumes "level s = 1 + score s div 300"
  shows "level (fst (updateAndDraw w h rnd s)) = 1 + score (fst (updateAndDraw w h rnd s)) div 300"
proof (cases "isGameActive s")
  case False
  then show ?thesis using assms by (simp add: updateAndDraw_inactive)
next
  case True
  have sp: "level (spawnItem w rnd t) = level t" "score (spawnItem w rnd t) = score t" for t
    by (subst spawnItem_frame, simp)+
  show ?thesis
    unfolding updateAndDraw_active [OF True]
    by (rule updateItems_level) (simp add: sp assms)
qed

lemma frame_gameEnds: "gameEnds (fst (updateAndDraw w h rnd s)) = gameEnds s"
proof (cases "isGameActive s")
  case False
  then show ?thesis by (simp add: updateAndDraw_inactive)
next
  case True
  have sp: "gameEnds (spawnItem w rnd t) = gameEnds t" for t
    unfolding gameEnds_def by (subst spawnItem_frame) simp
  have fc: "gameEnds (s\<lparr>frameCount := frameCount s + 1\<rparr>) = gameEnds s"
    by (simp add: gameEnds_def)
  show ?thesis
    unfolding updateAndDraw_active [OF True]
    by (simp add: updateItems_gameEnds sp fc)
qed

lemma start_timers:
  "liveTimers (start cfg s) =
     insert (nextTimerId s)
       (if truthy_id (timerInterval s)
        then (case timerInterval s of None \<Rightarrow> liveTimers s | Some h \<Rightarrow> liveTimers s - {h})
        else liveTimers s)"
  "nextTimerId (start cfg s) = Suc (nextTimerId s)"
  by (simp_all add: start_def setInterval_def clearInterval_def Let_def split_beta split: option.splits)

lemma stop_more:
  "timeLimit (stop s) = timeLimit s" "onScoreChange (stop s) = onScoreChange s"
  "nextTimerId (stop s) = nextTimerId s" "engine.more (stop s) = engine.more s"
  by (simp_all add: stop_def clearInterval_def Let_def split: option.splits)

lemma stop_stop:
  "stop (stop s) =
     (stop s)\<lparr>notified := notified (stop s) @
                 (if onGameEnd s \<noteq> None then [GameEnd (score s) (level s)] else [])\<rparr>"
  by (rule engine.equality) (auto simp add: stop_fields stop_more split: option.splits)

lemma timerCallback_stopped: "timerCallback (stop s) = stop s"
  by (simp add: timerCallback_def stop_fields)

subsection \<open>Invariants of a session\<close>

lemma step_level:
  "level s = 1 + score s div 300 \<Longrightarrow> level (step e s) = 1 + score (step e s) div 300"
  by (cases e)
     (simp_all add: start_fields start_null_fields stop_fields timerCallback_fields
        setBasketPose_fields frame_level page_stop_def setScoreChangeCallback_def
        setGameEndCallback_def)

lemma run_level:
  "level s = 1 + score s div 300 \<Longrightarrow> level (run es s) = 1 + score (run es s) div 300"
  by (induction es arbitrary: s) (simp_all add: step_level)

lemma step_basket:
  "basketPos s \<in> {0, 1, 2} \<and> lanes s = [0.16, 0.5, 0.84] \<Longrightarrow>
   basketPos (step e s) \<in> {0, 1, 2} \<and> lanes (step e s) = [0.16, 0.5, 0.84]"
  by (cases e)
     (simp_all add: start_fields start_null_fields stop_fields timerCallback_fields
        setBasketPose_fields frame_fields page_stop_def setScoreChangeCallback_def
        setGameEndCallback_def)

lemma run_basket:
  "basketPos s \<in> {0, 1, 2} \<and> lanes s = [0.16, 0.5, 0.84] \<Longrightarrow>
   basketPos (run es s) \<in> {0, 1, 2} \<and> lanes (run es s) = [0.16, 0.5, 0.84]"
proof (induction es arbitrary: s)
  case Nil
  then show ?case by simp
next
  case (Cons e es)
  from Cons.prems have "basketPos (step e s) \<in> {0, 1, 2} \<and> lanes (step e s) = [0.16, 0.5, 0.84]"
    by (rule step_basket)
  then show ?case using Cons.IH by simp
qed

lemma step_spawnRate: "spawnRate (step e s) = spawnRate s"
  by (cases e)
     (simp_all add: start_fields start_null_fields stop_fields timerCallback_fields
        setBasketPose_fields frame_fields page_stop_def setScoreChangeCallback_def
        setGameEndCallback_def)

lemma run_spawnRate: "spawnRate (run es s) = spawnRate s"
  by (induction es arbitrary: s) (simp_all add: step_spawnRate)

lemma js_rem_zero: "js_rem a b = 0 \<longleftrightarrow> \<bar>b\<bar> dvd \<bar>a\<bar>"
  by (auto simp add: js_rem_def sgn_if mod_eq_0_iff_dvd)

lemma js_rem_zero_mod: "js_rem a b = 0 \<longleftrightarrow> a mod b = 0"
  by (simp add: js_rem_zero mod_eq_0_iff_dvd)

subsection \<open>Game-end notifications along a session\<close>

lemma step_within_session:
  assumes "withinSession e" "onGameEnd s \<noteq> None"
  shows "onGameEnd (step e s) = onGameEnd s \<and>
         (isGameActive (step e s) \<longrightarrow> isGameActive s) \<and>
         gameEnds (step e s) =
           gameEnds s + (if isGameActive s \<and> \<not> isGameActive (step e s) then 1 else 0)"
proof (cases e)
  case (Frame w h rnd)
  then show ?thesis by (simp add: frame_fields frame_gameEnds)
next
  case (TimerFires h)
  show ?thesis
  proof (cases "h \<in> liveTimers s")
    case True
    have "gameEnds (timerCallback s) =
            gameEnds s + (if isGameActive s \<and> \<not> isGameActive (timerCallback s) then 1 else 0)"
      using assms(2) by (auto simp add: timerCallback_fields gameEnds_def)
    then show ?thesis using True TimerFires
      by (simp add: timerCallback_fields)
  next
    case False
    then show ?thesis using TimerFires by simp
  qed
next
  case PageStop
  then show ?thesis using assms(2)
    by (simp add: page_stop_def stop_fields gameEnds_def)
next
  case (SetBasketPose l)
  then show ?thesis by (simp add: setBasketPose_fields gameEnds_def)
next
  case (SetScoreChangeCallback cb)
  then show ?thesis by (simp add: setScoreChangeCallback_def gameEnds_def)
next
  case (Start cfg)
  then show ?thesis using assms(1) by simp
next
  case StartNull
  then show ?thesis using assms(1) by simp
next
  case Stop
  then show ?thesis using assms(1) by simp
next
  case (SetGameEndCallback cb)
  then show ?thesis using assms(1) by simp
qed


lemma run_within_session:
  assumes "list_all withinSession es" "onGameEnd s \<noteq> None"
  shows "gameEnds (run es s) =
           gameEnds s + (if isGameActive s \<and> \<not> isGameActive (run es s) then 1 else 0) \<and>
         (isGameActive (run es s) \<longrightarrow> isGameActive s)"
  using assms
proof (induction es arbitrary: s)
  case Nil
  then show ?case by simp
next
  case (Cons e es)
  from Cons.prems have e: "withinSession e" and es: "list_all withinSession es" by simp_all
  define t where "t = step e s"
  have one: "onGameEnd t = onGameEnd s" "isGameActive t \<Longrightarrow> isGameActive s"
    "gameEnds t = gameEnds s + (if isGameActive s \<and> \<not> isGameActive t then 1 else 0)"
    using step_within_session [OF e Cons.prems(2)] by (simp_all add: t_def)
  have cb: "onGameEnd t \<noteq> None" using one(1) Cons.prems(2) by simp
  have rest: "gameEnds (run es t) =
           gameEnds t + (if isGameActive t \<and> \<not> isGameActive (run es t) then 1 else 0)"
    "isGameActive (run es t) \<Longrightarrow> isGameActive t"
    using Cons.IH [OF es cb] by simp_all
  have r: "run (e # es) s = run es t" by (simp add: t_def)
  show ?case
  proof (cases "isGameActive t")
    case True
    then show ?thesis using one rest unfolding r by simp
  next
    case False
    then have "\<not> isGameActive (run es t)" using rest(2) by blast
    then show ?thesis using one rest False unfolding r by simp
  qed
qed

section \<open>Scoring\<close>

text \<open>
  Claim C8. Every catch of an apple adds exactly 10 to the score and every catch of a bomb
  subtracts exactly 50; an item that is not caught, so also one that falls off the canvas,
  leaves the whole engine state as it was. Over a frame the score changes by 10 for each
  caught apple and by -50 for each caught bomb. The score is an integer and nothing keeps
  it from going negative: the witness takes it from 20 to -30.
\<close>

theorem catch_score_effect:
  "(caught h (basketPos s) it \<and> type it = ''apple''
      \<longrightarrow> score (snd (updateItem h it s)) = score s + 10) \<and>
   (caught h (basketPos s) it \<and> type it = ''bomb''
      \<longrightarrow> score (snd (updateItem h it s)) = score s - 50) \<and>
   (\<not> caught h (basketPos s) it \<longrightarrow> snd (updateItem h it s) = s) \<and>
   score (updateItems h w s) =
     score s
     + 10 * int (length (filter (\<lambda>i. type i = ''apple'') (filter (caught h (basketPos s)) (items s))))
     - 50 * int (length (filter (\<lambda>i. type i = ''bomb'') (filter (caught h (basketPos s)) (items s))))"
proof -
  have tick: "score (updateItems h w s) =
     score s
     + 10 * int (length (filter (\<lambda>i. type i = ''apple'') (filter (caught h (basketPos s)) (items s))))
     - 50 * int (length (filter (\<lambda>i. type i = ''bomb'') (filter (caught h (basketPos s)) (items s))))"
    unfolding updateItems_score sum_scoreDelta by simp
  have one: "snd (updateItem h it s) =
     (if caught h (basketPos s) it then snd (handleCollision (it\<lparr>y := y it + speed it\<rparr>) s) else s)"
    by (rule updateItem_snd)
  show ?thesis
    using tick by (simp add: one handleCollision_fields scoreDelta_def)
qed

theorem catch_score_effect_witness:
  "caught 400 (basketPos ex_engine) ex_apple \<and> type ex_apple = ''apple'' \<and>
   score (snd (updateItem 400 ex_apple ex_engine)) = 10 \<and>
   caught 400 (basketPos (ex_engine\<lparr>score := 20\<rparr>)) ex_bomb \<and> type ex_bomb = ''bomb'' \<and>
   score (snd (updateItem 400 ex_bomb (ex_engine\<lparr>score := 20\<rparr>))) = - 30 \<and>
   \<not> caught 400 (basketPos ex_engine) ex_leaving \<and>
   snd (updateItem 400 ex_leaving ex_engine) = ex_engine"
  using catch_score_effect [of 400 ex_engine ex_apple]
        catch_score_effect [of 400 "ex_engine\<lparr>score := 20\<rparr>" ex_bomb]
        catch_score_effect [of 400 ex_engine ex_leaving]
  by (simp add: ex_caught ex_engine_eq) (simp add: ex_apple_def ex_bomb_def)

section \<open>Catching and missing\<close>

text \<open>
  Claim C6. An item is tested for a catch exactly while its position after the move lies
  between 0.85 * canvasHeight - 20 and 0.85 * canvasHeight + 20. In that band an item in the
  basket's lane is deactivated and \<open>handleCollision\<close> runs on it, which is the caught
  event: it notifies the registered score callback once. A live item that is outside the
  band or in another lane leaves the engine untouched and stays live as long as it is on
  the canvas, so an item that never matches the lane passes through the band and goes on
  falling. Over a frame, the list keeps exactly the live items that were not caught and
  are still on the canvas, and the callback is notified once per caught item: a caught
  item is gone from the list in the frame of its catch and cannot be caught again.
\<close>

theorem catch_zone_resolution:
  "(active it \<and> canvasHeight * 0.85 - 20 \<le> y it + speed it \<and>
    y it + speed it \<le> canvasHeight * 0.85 + 20 \<and> lane it = basketPos s \<longrightarrow>
      \<not> active (fst (updateItem canvasHeight it s)) \<and>
      snd (updateItem canvasHeight it s) = snd (handleCollision (advance it) s) \<and>
      notified (snd (updateItem canvasHeight it s)) =
        notified s @
        (if onScoreChange s \<noteq> None
         then [ScoreChange (score s + scoreDelta (type it))
                 (1 + (score s + scoreDelta (type it)) div 300)]
         else [])) \<and>
   (active it \<and> \<not> (canvasHeight * 0.85 - 20 \<le> y it + speed it \<and>
    y it + speed it \<le> canvasHeight * 0.85 + 20 \<and> lane it = basketPos s) \<longrightarrow>
      updateItem canvasHeight it s =
        (it\<lparr>y := y it + speed it, active := (y it + speed it \<le> canvasHeight)\<rparr>, s)) \<and>
   items (updateItems canvasHeight canvasWidth s) =
     map advance
       (filter (\<lambda>i. active i \<and> \<not> caught canvasHeight (basketPos s) i \<and>
                     y i + speed i \<le> canvasHeight) (items s)) \<and>
   length (notified (updateItems canvasHeight canvasWidth s)) =
     length (notified s) +
     (if onScoreChange s \<noteq> None
      then length (filter (caught canvasHeight (basketPos s)) (items s)) else 0)"
proof -
  have hit: "caught canvasHeight (basketPos s) it \<Longrightarrow>
      \<not> active (fst (updateItem canvasHeight it s)) \<and>
      snd (updateItem canvasHeight it s) = snd (handleCollision (advance it) s) \<and>
      notified (snd (updateItem canvasHeight it s)) =
        notified s @
        (if onScoreChange s \<noteq> None
         then [ScoreChange (score s + scoreDelta (type it))
                 (1 + (score s + scoreDelta (type it)) div 300)]
         else [])"
    by (simp add: updateItem_caught advance_def handleCollision_fields)
  have pass: "active it \<Longrightarrow> \<not> caught canvasHeight (basketPos s) it \<Longrightarrow>
      updateItem canvasHeight it s =
        (it\<lparr>y := y it + speed it, active := (y it + speed it \<le> canvasHeight)\<rparr>, s)"
    by (rule updateItem_not_caught)
  have left: "items (updateItems canvasHeight canvasWidth s) =
     map advance
       (filter (\<lambda>i. active i \<and> \<not> caught canvasHeight (basketPos s) i \<and>
                     y i + speed i \<le> canvasHeight) (items s))"
    using updateItems_survivors [of canvasHeight canvasWidth s]
    by (simp add: survives_def [abs_def])
  have cnt: "length (notified (updateItems canvasHeight canvasWidth s)) =
     length (notified s) +
     (if onScoreChange s \<noteq> None
      then length (filter (caught canvasHeight (basketPos s)) (items s)) else 0)"
    by (rule updateItems_notified_length)
  have c: "caught canvasHeight (basketPos s) it \<longleftrightarrow>
      active it \<and> canvasHeight * 0.85 - 20 \<le> y it + speed it \<and>
      y it + speed it \<le> canvasHeight * 0.85 + 20 \<and> lane it = basketPos s"
    by (simp add: caught_def inCatchBand_def)
  show ?thesis
    apply (intro conjI impI)
    subgoal using hit c by blast
    subgoal using hit c by blast
    subgoal using hit c by blast
    subgoal using pass c by blast
    subgoal by (rule left)
    subgoal by (rule cnt)
    done
qed

theorem catch_zone_resolution_witness:
  "active ex_apple \<and> 400 * 0.85 - 20 \<le> y ex_apple + speed ex_apple \<and>
   y ex_apple + speed ex_apple \<le> 400 * 0.85 + 20 \<and> lane ex_apple = basketPos ex_engine \<and>
   \<not> active (fst (updateItem 400 ex_apple ex_engine)) \<and>
   notified (snd (updateItem 400 ex_apple ex_engine)) = [ScoreChange 10 1] \<and>
   active ex_passing \<and> 400 * 0.85 - 20 \<le> y ex_passing + speed ex_passing \<and>
   y ex_passing + speed ex_passing \<le> 400 * 0.85 + 20 \<and> lane ex_passing \<noteq> basketPos ex_engine \<and>
   updateItem 400 ex_passing ex_engine = (ex_passing\<lparr>y := 333\<rparr>, ex_engine)"
proof -
  have a: "active ex_apple \<and> 400 * 0.85 - 20 \<le> y ex_apple + speed ex_apple \<and>
      y ex_apple + speed ex_apple \<le> 400 * 0.85 + 20 \<and> lane ex_apple = basketPos ex_engine"
    by (simp add: ex_apple_def ex_engine_eq)
  have p: "active ex_passing \<and> \<not> (400 * 0.85 - 20 \<le> y ex_passing + speed ex_passing \<and>
      y ex_passing + speed ex_passing \<le> 400 * 0.85 + 20 \<and> lane ex_passing = basketPos ex_engine)"
    by (simp add: ex_passing_def ex_engine_eq)
  have band: "400 * 0.85 - 20 \<le> y ex_passing + speed ex_passing \<and>
      y ex_passing + speed ex_passing \<le> 400 * 0.85 + 20 \<and> lane ex_passing \<noteq> basketPos ex_engine"
    by (simp add: ex_passing_def ex_engine_eq)
  have "\<not> active (fst (updateItem 400 ex_apple ex_engine)) \<and>
      notified (snd (updateItem 400 ex_apple ex_engine)) = [ScoreChange 10 1]"
    using catch_zone_resolution
      [where it = ex_apple and canvasHeight = 400 and s = ex_engine and canvasWidth = 400,
       THEN conjunct1, rule_format, OF a]
    by (simp add: ex_engine_eq ex_apple_def scoreDelta_def handleCollision_def advance_def Let_def)
  moreover have "updateItem 400 ex_passing ex_engine = (ex_passing\<lparr>y := 333\<rparr>, ex_engine)"
    using catch_zone_resolution
      [where it = ex_passing and canvasHeight = 400 and s = ex_engine and canvasWidth = 400,
       THEN conjunct2, THEN conjunct1, rule_format, OF p]
    by (simp add: ex_passing_def)
  ultimately show ?thesis using a p band by simp
qed


text \<open>
  Claim C3, as the code has it. A live item that moves past the canvas height without being
  caught is deactivated and the engine state stays exactly as it was: no score or level
  change and no call of any callback. The frame drops it from the list: the frame with
  the item gives the same engine as the frame without it.
\<close>

theorem miss_silent_removal:
  "active it \<and> canvasHeight < y it + speed it \<and> \<not> caught canvasHeight (basketPos s) it \<longrightarrow>
     updateItem canvasHeight it s = (it\<lparr>y := y it + speed it, active := False\<rparr>, s) \<and>
     updateItems canvasHeight canvasWidth (s\<lparr>items := pre @ it # post\<rparr>) =
       updateItems canvasHeight canvasWidth (s\<lparr>items := pre @ post\<rparr>)"
  by (simp add: updateItem_not_caught updateItems_skip_missed)

theorem miss_silent_removal_witness:
  "active ex_leaving \<and> 400 < y ex_leaving + speed ex_leaving \<and>
   \<not> caught 400 (basketPos ex_engine) ex_leaving \<and>
   updateItem 400 ex_leaving ex_engine = (ex_leaving\<lparr>y := 402, active := False\<rparr>, ex_engine) \<and>
   updateItems 400 400 (ex_engine\<lparr>items := [ex_passing] @ ex_leaving # [ex_apple]\<rparr>) =
     updateItems 400 400 (ex_engine\<lparr>items := [ex_passing] @ [ex_apple]\<rparr>)"
  using miss_silent_removal [where it = ex_leaving and canvasHeight = 400 and s = ex_engine
      and pre = "[ex_passing]" and post = "[ex_apple]" and canvasWidth = 400]
  by (simp add: ex_caught ex_engine_eq) (simp add: ex_leaving_def)


text \<open>
  Claim C3 as stated asks for a missed event to be reported once. The engine has no such
  event: an item that leaves the canvas disappears from the list and, with both callbacks
  registered, nothing is notified.
\<close>

theorem missed_event_counterexample:
  "400 < y ex_leaving + speed ex_leaving \<and>
   items (fst (updateAndDraw 400 400 (0.5, 0.5, 0.5) (ex_engine\<lparr>items := [ex_leaving]\<rparr>))) = [] \<and>
   notified (fst (updateAndDraw 400 400 (0.5, 0.5, 0.5) (ex_engine\<lparr>items := [ex_leaving]\<rparr>))) = []"
  by (simp add: updateAndDraw_def ex_engine_eq ex_leaving_def Let_def js_rem_def currentSpawnRate_def
      updateItems_def updateItem_def)

section \<open>The item list after a frame\<close>

text \<open>
  Claim C10. After a frame of an active session every item of the list is live and at or
  above the canvas height. The list is exactly the moved items, of the old list and the
  item (at most one) spawned in this frame, that were live, were not caught and did not
  move past the canvas height: a caught item and an item that fell off are removed in
  the same frame.
\<close>

theorem frame_keeps_unresolved_items:
  "isGameActive s \<longrightarrow>
     (\<forall>it \<in> set (items (fst (updateAndDraw canvasWidth canvasHeight rnd s))).
         active it \<and> y it \<le> canvasHeight) \<and>
     (\<exists>new. length new \<le> 1 \<and>
        items (fst (updateAndDraw canvasWidth canvasHeight rnd s)) =
          map advance
            (filter (\<lambda>i. active i \<and> \<not> caught canvasHeight (basketPos s) i \<and>
                          y i + speed i \<le> canvasHeight) (items s @ new)))"
proof
  assume act: "isGameActive s"
  define s1 where "s1 = s\<lparr>frameCount := frameCount s + 1\<rparr>"
  define s2 where "s2 = (if js_rem (frameCount s + 1) (currentSpawnRate s) = 0
        then spawnItem canvasWidth rnd s1 else s1)"
  have frame: "fst (updateAndDraw canvasWidth canvasHeight rnd s) = updateItems canvasHeight canvasWidth s2"
    using act by (simp add: updateAndDraw_active s1_def s2_def)
  obtain new where new: "length new \<le> 1" "items s2 = items s @ new"
  proof (cases "js_rem (frameCount s + 1) (currentSpawnRate s) = 0")
    case True
    obtain it where "items (spawnItem canvasWidth rnd s1) = items s1 @ [it]"
      using spawnItem_items by blast
    then have "items s2 = items s @ [it]" using True by (simp add: s2_def s1_def)
    then show ?thesis using that [of "[it]"] by simp
  next
    case False
    then have "items s2 = items s @ []" by (simp add: s2_def s1_def)
    then show ?thesis using that [of "[]"] by simp
  qed
  have bp: "basketPos s2 = basketPos s"
  proof (cases "js_rem (frameCount s + 1) (currentSpawnRate s) = 0")
    case True
    have "basketPos (spawnItem canvasWidth rnd s1) = basketPos s1"
      by (subst spawnItem_frame) simp
    then show ?thesis using True by (simp add: s2_def s1_def)
  next
    case False
    then show ?thesis by (simp add: s2_def s1_def)
  qed
  have eq: "items (fst (updateAndDraw canvasWidth canvasHeight rnd s)) =
          map advance
            (filter (\<lambda>i. active i \<and> \<not> caught canvasHeight (basketPos s) i \<and>
                          y i + speed i \<le> canvasHeight) (items s @ new))"
    using updateItems_survivors [of canvasHeight canvasWidth s2]
    by (simp add: frame survives_def [abs_def] bp new)
  have "\<forall>it \<in> set (items (fst (updateAndDraw canvasWidth canvasHeight rnd s))).
         active it \<and> y it \<le> canvasHeight"
    unfolding eq by (auto simp add: advance_def)
  with eq new show "(\<forall>it \<in> set (items (fst (updateAndDraw canvasWidth canvasHeight rnd s))).
         active it \<and> y it \<le> canvasHeight) \<and>
     (\<exists>new. length new \<le> 1 \<and>
        items (fst (updateAndDraw canvasWidth canvasHeight rnd s)) =
          map advance
            (filter (\<lambda>i. active i \<and> \<not> caught canvasHeight (basketPos s) i \<and>
                          y i + speed i \<le> canvasHeight) (items s @ new)))"
    by blast
qed

theorem frame_keeps_unresolved_items_witness:
  "isGameActive (ex_engine\<lparr>items := [ex_apple, ex_leaving, ex_passing]\<rparr>) \<and>
   items (fst (updateAndDraw 400 400 (0.5, 0.5, 0.5)
                 (ex_engine\<lparr>items := [ex_apple, ex_leaving, ex_passing]\<rparr>))) =
     [ex_passing\<lparr>y := 333\<rparr>] \<and>
   active (ex_passing\<lparr>y := 333\<rparr>) \<and> y (ex_passing\<lparr>y := 333\<rparr>) \<le> 400"
  using frame_keeps_unresolved_items
     [where s = "ex_engine\<lparr>items := [ex_apple, ex_leaving, ex_passing]\<rparr>"
        and canvasWidth = 400 and canvasHeight = 400 and rnd = "(0.5, 0.5, 0.5)"]
  by (simp add: updateAndDraw_def ex_engine_eq ex_leaving_def ex_apple_def ex_passing_def Let_def
      js_rem_def currentSpawnRate_def updateItems_def updateItem_def handleCollision_def)

section \<open>Level\<close>

text \<open>
  Claim C1, as the code has it. \<open>handleCollision\<close> recomputes the level from the
  score alone: after every score update the level is 1 + floor(score / 300), with no
  maximum against the previous level and no clamp of the score at 0. The same equation
  holds in every state of every session. So the level is at least 1, and equal to
  1 + floor(max(score, 0) / 300), whenever the score is not negative, and an update that
  does not lower the score does not lower a level that was derived from the score.
\<close>

theorem level_follows_score:
  "level (snd (handleCollision it s)) = 1 + score (snd (handleCollision it s)) div 300 \<and>
   level (run es GameEngine) = 1 + score (run es GameEngine) div 300 \<and>
   (0 \<le> score (run es GameEngine) \<longrightarrow>
      1 \<le> level (run es GameEngine) \<and>
      level (run es GameEngine) = 1 + max (score (run es GameEngine)) 0 div 300) \<and>
   (level s = 1 + score s div 300 \<and> score s \<le> score (snd (handleCollision it s)) \<longrightarrow>
      level s \<le> level (snd (handleCollision it s)))"
proof -
  have a: "level (snd (handleCollision it s)) = 1 + score (snd (handleCollision it s)) div 300"
    by (simp add: handleCollision_fields)
  have b: "level (run es GameEngine) = 1 + score (run es GameEngine) div 300"
    by (rule run_level) (simp add: GameEngine_fields)
  have c: "0 \<le> score (run es GameEngine) \<Longrightarrow>
      1 \<le> level (run es GameEngine) \<and>
      level (run es GameEngine) = 1 + max (score (run es GameEngine)) 0 div 300"
    using b by (simp add: max_def pos_imp_zdiv_nonneg_iff)
  have d: "level s = 1 + score s div 300 \<Longrightarrow> score s \<le> score (snd (handleCollision it s)) \<Longrightarrow>
      level s \<le> level (snd (handleCollision it s))"
    using a by (simp add: zdiv_mono1)
  show ?thesis using a b c d by blast
qed

theorem level_follows_score_witness:
  "0 \<le> score (run [Start \<lparr>cfg_timeLimit = Some 60\<rparr>] GameEngine) \<and>
   level (run [Start \<lparr>cfg_timeLimit = Some 60\<rparr>] GameEngine) = 1 \<and>
   level ex_engine = 1 + score ex_engine div 300 \<and>
   score ex_engine \<le> score (snd (handleCollision ex_apple ex_engine)) \<and>
   level ex_engine \<le> level (snd (handleCollision ex_apple ex_engine))"
  using level_follows_score
    [where es = "[Start \<lparr>cfg_timeLimit = Some 60\<rparr>]" and s = ex_engine and it = ex_apple]
  by (simp add: start_fields ex_engine_eq handleCollision_fields scoreDelta_def ex_apple_def)

text \<open>
  Claim C1 as stated fails. A bomb caught at score 20 gives score -30 and level 0, below
  the previous level 1 and below 1, where the claim's formula gives 1; and a bomb caught
  at score 300, level 2, takes the level back to 1.
\<close>

theorem level_monotone_counterexample:
  "score (snd (handleCollision ex_bomb (ex_engine\<lparr>score := 20\<rparr>))) = - 30 \<and>
   level (snd (handleCollision ex_bomb (ex_engine\<lparr>score := 20\<rparr>))) = 0 \<and>
   level (ex_engine\<lparr>score := 20\<rparr>) = 1 \<and>
   max (level (ex_engine\<lparr>score := 20\<rparr>)) (1 + max (- 30) 0 div 300) = 1 \<and>
   level (snd (handleCollision ex_bomb (ex_engine\<lparr>score := 300, level := 2\<rparr>))) = 1"
  by (simp add: handleCollision_fields scoreDelta_def ex_bomb_def ex_engine_eq)

section \<open>Game end\<close>

text \<open>
  Claim C2, as the code has it. Every call of \<open>stop\<close> notifies the registered game-end
  callback once, with the current score and level, whether or not the session is still
  active; it leaves the engine inactive and its interval cleared, and the timer callback
  does nothing after it. The timer callback notifies the game end only when the session
  is active and the remaining time runs out. So \<open>stop\<close> is idempotent on the engine's
  fields but not on the notification: a second \<open>stop\<close> adds a second notification.
  In a session whose events are frames, pose changes, timer ticks and the page's guarded
  stop, the game end is notified exactly once if the session ends and not at all before.
\<close>

theorem game_end_per_stop:
  "notified (stop s) =
     notified s @ (if onGameEnd s \<noteq> None then [GameEnd (score s) (level s)] else []) \<and>
   \<not> isGameActive (stop s) \<and>
   (timerInterval s = Some h \<longrightarrow> h \<notin> liveTimers (stop s)) \<and>
   timerCallback (stop s) = stop s \<and>
   notified (timerCallback s) =
     notified s @ (if isGameActive s \<and> timeLeft s \<le> 1 \<and> onGameEnd s \<noteq> None
                   then [GameEnd (score s) (level s)] else []) \<and>
   stop (stop s) =
     (stop s)\<lparr>notified := notified (stop s) @
                 (if onGameEnd s \<noteq> None then [GameEnd (score s) (level s)] else [])\<rparr> \<and>
   (list_all withinSession es \<and> onGameEnd s \<noteq> None \<longrightarrow>
      gameEnds (run es s) =
        gameEnds s + (if isGameActive s \<and> \<not> isGameActive (run es s) then 1 else 0))"
proof (intro conjI impI)
  show "notified (stop s) =
     notified s @ (if onGameEnd s \<noteq> None then [GameEnd (score s) (level s)] else [])"
    by (rule stop_fields)
  show "\<not> isGameActive (stop s)" by (simp add: stop_fields)
  show "h \<notin> liveTimers (stop s)" if "timerInterval s = Some h"
    using that by (simp add: stop_fields)
  show "timerCallback (stop s) = stop s" by (rule timerCallback_stopped)
  show "notified (timerCallback s) =
     notified s @ (if isGameActive s \<and> timeLeft s \<le> 1 \<and> onGameEnd s \<noteq> None
                   then [GameEnd (score s) (level s)] else [])"
    by (rule timerCallback_fields)
  show "stop (stop s) =
     (stop s)\<lparr>notified := notified (stop s) @
                 (if onGameEnd s \<noteq> None then [GameEnd (score s) (level s)] else [])\<rparr>"
    by (rule stop_stop)
  show "gameEnds (run es s) =
        gameEnds s + (if isGameActive s \<and> \<not> isGameActive (run es s) then 1 else 0)"
    if "list_all withinSession es \<and> onGameEnd s \<noteq> None"
    using that run_within_session by blast
qed

theorem game_end_per_stop_witness:
  "timerInterval ex_engine = Some 1 \<and> 1 \<notin> liveTimers (stop ex_engine) \<and>
   list_all withinSession
     [Frame 400 400 (0.5, 0.5, 0.5), TimerFires 1, PageStop, PageStop, TimerFires 1] \<and>
   onGameEnd ex_engine \<noteq> None \<and> isGameActive ex_engine \<and>
   \<not> isGameActive
       (run [Frame 400 400 (0.5, 0.5, 0.5), TimerFires 1, PageStop, PageStop, TimerFires 1] ex_engine) \<and>
   gameEnds
     (run [Frame 400 400 (0.5, 0.5, 0.5), TimerFires 1, PageStop, PageStop, TimerFires 1] ex_engine) = 1"
proof -
  define es where "es = [Frame 400 400 (0.5, 0.5, 0.5), TimerFires 1, PageStop, PageStop, TimerFires 1]"
  have live: "timerInterval ex_engine = Some 1" "onGameEnd ex_engine \<noteq> None" "isGameActive ex_engine"
    "gameEnds ex_engine = 0"
    by (simp_all add: ex_engine_eq gameEnds_def)
  have ws: "list_all withinSession es" by (simp add: es_def)
  have off: "\<not> isGameActive (run es ex_engine)"
    by (simp add: es_def frame_fields timerCallback_fields page_stop_def stop_fields)
  note inst = game_end_per_stop [where s = ex_engine and h = 1 and es = es]
  from inst live have a: "1 \<notin> liveTimers (stop ex_engine)" by blast
  from inst live ws have "gameEnds (run es ex_engine) =
      gameEnds ex_engine + (if isGameActive ex_engine \<and> \<not> isGameActive (run es ex_engine) then 1 else 0)"
    by blast
  then have b: "gameEnds (run es ex_engine) = 1" using live off by simp
  show ?thesis using a b live ws off unfolding es_def by blast
qed

text \<open>
  Claim C2 as stated fails: two calls of \<open>stop\<close> in one session notify the game end
  twice, and so does a call of \<open>stop\<close> after the timer has expired.
\<close>

theorem stop_twice_counterexample:
  "notified (run [SetGameEndCallback (Some 1), Start \<lparr>cfg_timeLimit = None\<rparr>, Stop, Stop] GameEngine) =
     [GameEnd 0 1, GameEnd 0 1] \<and>
   notified (run [SetGameEndCallback (Some 1), Start \<lparr>cfg_timeLimit = Some 1\<rparr>, TimerFires 1, Stop]
               GameEngine) =
     [GameEnd 0 1, GameEnd 0 1]"
  by (simp add: setGameEndCallback_def start_fields start_timers stop_fields timerCallback_fields
      GameEngine_def timeLimit_or_default_def truthy_id_def)

section \<open>Calls on an inactive engine\<close>

text \<open>
  Claim C4, as the code has it. \<open>updateAndDraw\<close> on an inactive engine returns at once:
  the state is unchanged and nothing is drawn. \<open>setBasketPose\<close> has no activity guard:
  in every state, active or not, it raises nothing and changes at most the basket position,
  which the three known labels set to 0, 1 and 2; any other label changes nothing.
\<close>

theorem inactive_calls:
  "(\<not> isGameActive s \<longrightarrow> updateAndDraw canvasWidth canvasHeight rnd s = (s, [])) \<and>
   setBasketPose poseLabel s =
     s\<lparr>basketPos := (if poseLabel = label_left then 0 else if poseLabel = label_front then 1
                      else if poseLabel = label_right then 2 else basketPos s)\<rparr> \<and>
   (poseLabel \<notin> {label_left, label_front, label_right} \<longrightarrow> setBasketPose poseLabel s = s)"
  by (simp add: updateAndDraw_inactive setBasketPose_def)

theorem inactive_calls_witness:
  "\<not> isGameActive (stop ex_engine) \<and>
   updateAndDraw 400 400 (0.5, 0.5, 0.5) (stop ex_engine) = (stop ex_engine, []) \<and>
   ''jump'' \<notin> {label_left, label_front, label_right} \<and>
   setBasketPose ''jump'' (stop ex_engine) = stop ex_engine"
  using inactive_calls [where s = "stop ex_engine" and canvasWidth = 400 and canvasHeight = 400
      and rnd = "(0.5, 0.5, 0.5)" and poseLabel = "''jump''"]
  by (simp add: stop_fields label_left_def label_right_def label_front_def)

text \<open>
  Claim C4 as stated fails for \<open>setBasketPose\<close>: on a stopped engine the label for
  left moves the basket from lane 1 to lane 0.
\<close>

theorem inactive_setBasketPose_counterexample:
  "\<not> isGameActive (stop ex_engine) \<and>
   basketPos (stop ex_engine) = 1 \<and>
   basketPos (setBasketPose label_left (stop ex_engine)) = 0"
  by (simp add: stop_fields setBasketPose_fields ex_engine_eq)

section \<open>Spawn cadence\<close>

text \<open>
  Claim C5. In an active session a frame spawns an item exactly when the frame counter,
  after its increment, is a multiple of max(20, 60 - level * 5), with the level the engine
  has at the start of the frame; a spawn appends exactly one item. The interval is never
  below 20 frames and does not grow when the level rises.
\<close>

theorem spawn_cadence:
  "(isGameActive (run es GameEngine) \<longrightarrow>
      step (Frame canvasWidth canvasHeight rnd) (run es GameEngine) =
        updateItems canvasHeight canvasWidth
          (if (frameCount (run es GameEngine) + 1) mod max 20 (60 - level (run es GameEngine) * 5) = 0
           then spawnItem canvasWidth rnd
                  ((run es GameEngine)\<lparr>frameCount := frameCount (run es GameEngine) + 1\<rparr>)
           else (run es GameEngine)\<lparr>frameCount := frameCount (run es GameEngine) + 1\<rparr>)) \<and>
   (\<exists>it. items (spawnItem canvasWidth rnd s) = items s @ [it]) \<and>
   20 \<le> currentSpawnRate s \<and>
   (spawnRate s = spawnRate s' \<and> level s \<le> level s' \<longrightarrow> currentSpawnRate s' \<le> currentSpawnRate s)"
proof -
  have "currentSpawnRate (run es GameEngine) = max 20 (60 - level (run es GameEngine) * 5)"
    by (simp add: currentSpawnRate_def run_spawnRate GameEngine_fields)
  then have a: "isGameActive (run es GameEngine) \<Longrightarrow>
      step (Frame canvasWidth canvasHeight rnd) (run es GameEngine) =
        updateItems canvasHeight canvasWidth
          (if (frameCount (run es GameEngine) + 1) mod max 20 (60 - level (run es GameEngine) * 5) = 0
           then spawnItem canvasWidth rnd
                  ((run es GameEngine)\<lparr>frameCount := frameCount (run es GameEngine) + 1\<rparr>)
           else (run es GameEngine)\<lparr>frameCount := frameCount (run es GameEngine) + 1\<rparr>)"
    by (simp add: updateAndDraw_active js_rem_zero_mod)
  have b: "\<exists>it. items (spawnItem canvasWidth rnd s) = items s @ [it]"
    using spawnItem_items [of canvasWidth rnd s] by blast
  have c: "20 \<le> currentSpawnRate s"
    by (simp add: currentSpawnRate_def)
  have d: "spawnRate s = spawnRate s' \<Longrightarrow> level s \<le> level s' \<Longrightarrow>
      currentSpawnRate s' \<le> currentSpawnRate s"
    by (simp add: currentSpawnRate_def)
  show ?thesis using a b c d by blast
qed


theorem spawn_cadence_witness:
  "isGameActive (run [Start \<lparr>cfg_timeLimit = None\<rparr>] GameEngine) \<and>
   frameCount (run [Start \<lparr>cfg_timeLimit = None\<rparr>] GameEngine) = 0 \<and>
   (1::int) mod max 20 (60 - level (run [Start \<lparr>cfg_timeLimit = None\<rparr>] GameEngine) * 5) \<noteq> 0 \<and>
   step (Frame 400 400 (0.5, 0.5, 0.5)) (run [Start \<lparr>cfg_timeLimit = None\<rparr>] GameEngine) =
     updateItems 400 400 ((run [Start \<lparr>cfg_timeLimit = None\<rparr>] GameEngine)\<lparr>frameCount := 1\<rparr>) \<and>
   spawnRate ex_engine = spawnRate (ex_engine\<lparr>level := 3\<rparr>) \<and>
   level ex_engine \<le> level (ex_engine\<lparr>level := 3\<rparr>) \<and>
   currentSpawnRate (ex_engine\<lparr>level := 3\<rparr>) \<le> currentSpawnRate ex_engine"
  using spawn_cadence
    [where es = "[Start \<lparr>cfg_timeLimit = None\<rparr>]" and canvasWidth = 400 and canvasHeight = 400
       and rnd = "(0.5, 0.5, 0.5)" and s = ex_engine and s' = "ex_engine\<lparr>level := 3\<rparr>"]
  by (simp add: start_fields ex_engine_eq)

section \<open>Configuration\<close>

text \<open>
  Claim C7, as the code has it, for a call of \<open>start\<close> with \<open>undefined\<close>, with
  \<open>null\<close> or with a configuration object whose \<open>timeLimit\<close> is absent or an integer.
  \<open>start\<close> checks nothing about the duration and raises no configuration error. Called
  with \<open>undefined\<close> or with an object it returns normally, with an active, freshly reset
  session: an absent or zero \<open>timeLimit\<close> becomes 60, any other integer, negative ones
  too, is taken as it is, and a session started with a limit of at most 1 is stopped by
  the first timer callback. The one call that fails is \<open>start(null)\<close>, and not by a
  check: the read of \<open>config.timeLimit\<close> throws a TypeError after the engine has been
  made active with score 0 and level 1, and before the time, the items, the basket and
  the timer are touched.
\<close>

theorem start_accepts_any_limit:
  "(fst (start_call a s) = None) = (a \<noteq> ArgNull) \<and>
   start_call ArgUndefined s = (None, start \<lparr>cfg_timeLimit = None\<rparr> s) \<and>
   start_call (ArgObject cfg) s = (None, start cfg s) \<and>
   fst (start_call ArgNull s) = Some TypeError \<and>
   snd (start_call ArgNull s) = s\<lparr>isGameActive := True, score := 0, level := 1\<rparr> \<and>
   isGameActive (start cfg s) \<and>
   timeLimit (start cfg s) =
     (case cfg_timeLimit cfg of None \<Rightarrow> 60 | Some t \<Rightarrow> if t = 0 then 60 else t) \<and>
   timeLeft (start cfg s) = timeLimit (start cfg s) \<and>
   score (start cfg s) = 0 \<and> level (start cfg s) = 1 \<and> items (start cfg s) = [] \<and>
   basketPos (start cfg s) = 1 \<and> frameCount (start cfg s) = 0 \<and>
   timerInterval (start cfg s) = Some (nextTimerId s) \<and>
   nextTimerId s \<in> liveTimers (start cfg s) \<and>
   notified (start cfg s) = notified s \<and>
   (timeLeft (start cfg s) \<le> 1 \<longrightarrow> \<not> isGameActive (timerCallback (start cfg s)))"
proof -
  have call: "(fst (start_call a s) = None) = (a \<noteq> ArgNull)"
    by (cases a) (simp_all add: start_call_def)
  have rest: "start_call ArgUndefined s = (None, start \<lparr>cfg_timeLimit = None\<rparr> s)"
    "start_call (ArgObject cfg) s = (None, start cfg s)"
    "fst (start_call ArgNull s) = Some TypeError"
    "snd (start_call ArgNull s) = s\<lparr>isGameActive := True, score := 0, level := 1\<rparr>"
    by (simp_all add: start_call_def)
  have obj: "isGameActive (start cfg s) \<and>
   timeLimit (start cfg s) =
     (case cfg_timeLimit cfg of None \<Rightarrow> 60 | Some t \<Rightarrow> if t = 0 then 60 else t) \<and>
   timeLeft (start cfg s) = timeLimit (start cfg s) \<and>
   score (start cfg s) = 0 \<and> level (start cfg s) = 1 \<and> items (start cfg s) = [] \<and>
   basketPos (start cfg s) = 1 \<and> frameCount (start cfg s) = 0 \<and>
   timerInterval (start cfg s) = Some (nextTimerId s) \<and>
   nextTimerId s \<in> liveTimers (start cfg s) \<and>
   notified (start cfg s) = notified s \<and>
   (timeLeft (start cfg s) \<le> 1 \<longrightarrow> \<not> isGameActive (timerCallback (start cfg s)))"
    by (simp add: start_fields start_timers timerCallback_fields timeLimit_or_default_def)
  show ?thesis using call rest obj by simp
qed

theorem start_accepts_any_limit_witness:
  "timeLeft (start \<lparr>cfg_timeLimit = Some (- 5)\<rparr> GameEngine) \<le> 1 \<and>
   \<not> isGameActive (timerCallback (start \<lparr>cfg_timeLimit = Some (- 5)\<rparr> GameEngine)) \<and>
   fst (start_call (ArgObject \<lparr>cfg_timeLimit = Some (- 5)\<rparr>) GameEngine) = None \<and>
   fst (start_call ArgNull GameEngine) = Some TypeError \<and>
   isGameActive (snd (start_call ArgNull GameEngine)) \<and>
   liveTimers (snd (start_call ArgNull GameEngine)) = {}"
  using start_accepts_any_limit
    [where cfg = "\<lparr>cfg_timeLimit = Some (- 5)\<rparr>" and s = GameEngine
       and a = "ArgObject \<lparr>cfg_timeLimit = Some (- 5)\<rparr>"]
  by (simp add: start_null_fields GameEngine_def)

text \<open>
  Claim C7 as stated fails: with a time limit of -5 the session is active with -5 seconds
  left, and a time limit of 0 silently becomes 60.
\<close>

theorem start_no_config_error_counterexample:
  "isGameActive (start \<lparr>cfg_timeLimit = Some (- 5)\<rparr> GameEngine) \<and>
   timeLimit (start \<lparr>cfg_timeLimit = Some (- 5)\<rparr> GameEngine) = - 5 \<and>
   timeLeft (start \<lparr>cfg_timeLimit = Some (- 5)\<rparr> GameEngine) = - 5 \<and>
   timeLeft (start \<lparr>cfg_timeLimit = Some 0\<rparr> GameEngine) = 60"
  by (simp add: start_fields timeLimit_or_default_def)

section \<open>The basket lane\<close>

text \<open>
  Claim C9. In every state of every session the basket position is 0, 1 or 2, so the
  lookup \<open>lanes[basketPos]\<close> is inside the array. The constructor and \<open>start\<close> set it
  to 1, and \<open>setBasketPose\<close> assigns 0, 1 or 2 or leaves it as it is.
\<close>

theorem basket_lane_in_bounds:
  "basketPos (run es GameEngine) \<in> {0, 1, 2} \<and>
   js_index (lanes (run es GameEngine)) (basketPos (run es GameEngine)) \<noteq> None \<and>
   basketPos GameEngine = 1 \<and>
   basketPos (start cfg s) = 1 \<and>
   basketPos (setBasketPose poseLabel s) \<in> {0, 1, 2, basketPos s}"
proof -
  have inv: "basketPos (run es GameEngine) \<in> {0, 1, 2} \<and> lanes (run es GameEngine) = [0.16, 0.5, 0.84]"
    by (rule run_basket) (simp add: GameEngine_fields)
  then have "js_index (lanes (run es GameEngine)) (basketPos (run es GameEngine)) \<noteq> None"
    by (auto simp add: js_index_def)
  with inv show ?thesis
    by (simp add: GameEngine_fields start_fields setBasketPose_fields)
qed

theorem basket_lane_in_bounds_witness:
  "basketPos (run [Start \<lparr>cfg_timeLimit = None\<rparr>, SetBasketPose label_right] GameEngine) = 2 \<and>
   js_index (lanes (run [Start \<lparr>cfg_timeLimit = None\<rparr>, SetBasketPose label_right] GameEngine))
     (basketPos (run [Start \<lparr>cfg_timeLimit = None\<rparr>, SetBasketPose label_right] GameEngine)) \<noteq> None"
  using basket_lane_in_bounds [where es = "[Start \<lparr>cfg_timeLimit = None\<rparr>, SetBasketPose label_right]"]
  by (simp add: setBasketPose_fields label_left_def label_right_def label_front_def)

end
